theory Spec2Isabelle
  imports Complex_Main
begin

section \<open>JavaScript values used by the front end\<close>

text \<open>
  A TypeScript \<^verbatim>\<open>number\<close> is a double: not-a-number, the two infinities, or a finite value.
  The finite values that reach the code below are byte counts, epoch milliseconds, page
  numbers and record counts, all integers below \<open>2^53\<close>; they are kept as \<open>int\<close>, and the
  quotients of the efficiency computation as \<open>real\<close>.
\<close>

datatype 'a number = NaN | PosInfinity | NegInfinity | Fin 'a

text \<open>Truthiness of a number (\<^verbatim>\<open>if (x)\<close>, \<^verbatim>\<open>x || d\<close>): \<open>0\<close> and \<open>NaN\<close> are falsy.\<close>

fun truthy :: "int number \<Rightarrow> bool" where
  "truthy NaN = False"
| "truthy (Fin k) = (k \<noteq> 0)"
| "truthy PosInfinity = True"
| "truthy NegInfinity = True"

text \<open>The relational operators: every comparison with \<open>NaN\<close> is false.\<close>

fun less_js :: "int number \<Rightarrow> int number \<Rightarrow> bool" where
  "less_js NaN y = False"
| "less_js x NaN = False"
| "less_js (Fin a) (Fin b) = (a < b)"
| "less_js x NegInfinity = False"
| "less_js NegInfinity y = True"
| "less_js PosInfinity y = False"
| "less_js (Fin a) PosInfinity = True"

definition greater_js :: "int number \<Rightarrow> int number \<Rightarrow> bool" where
  "greater_js x y = less_js y x"

definition less_eq_js :: "int number \<Rightarrow> int number \<Rightarrow> bool" where
  "less_eq_js x y = (x \<noteq> NaN \<and> y \<noteq> NaN \<and> \<not> less_js y x)"

text \<open>Decimal digits of a natural number, and \<^verbatim>\<open>Number.prototype.toString\<close> on the numbers above.\<close>

fun digit :: "nat \<Rightarrow> char" where
  "digit d = ''0123456789'' ! d"

fun decimal :: "nat \<Rightarrow> string" where
  "decimal n = (if n < 10 then [digit n] else decimal (n div 10) @ [digit (n mod 10)])"

fun toString :: "int number \<Rightarrow> string" where
  "toString NaN = ''NaN''"
| "toString PosInfinity = ''Infinity''"
| "toString NegInfinity = ''-Infinity''"
| "toString (Fin k) = (if k < 0 then ''-'' @ decimal (nat (- k)) else decimal (nat k))"

text \<open>
  \<^verbatim>\<open>(size / (1024 * 1024)).toFixed(2)\<close> for a byte count: the quotient by \<open>2^20\<close> is exact in a
  double, and \<^verbatim>\<open>toFixed(2)\<close> picks the integer \<open>n\<close> with \<open>n / 100\<close> nearest to it, the larger
  one on a tie.
\<close>

definition toFixed2_MB :: "nat \<Rightarrow> string" where
  "toFixed2_MB sz =
     (let n = (sz * 100 + 524288) div 1048576
      in decimal (n div 100) @ ''.'' @ [digit (n mod 100 div 10), digit (n mod 10)])"


section \<open>services/fileService.ts\<close>

text \<open>
  A call through axios either rejects with an error or resolves with \<^verbatim>\<open>response.data\<close>; the
  backend is a function from the request to that outcome. A service function returns its
  own outcome (\<open>Inl\<close>: the promise rejects) together with the effects it performed, in order.
\<close>

datatype http_method = GET | POST | DELETE

record File =
  file_name :: string
  file_size :: nat

record request =
  req_method :: http_method
  req_url :: string
  req_headers :: "(string \<times> string) list"
  req_form :: "(string \<times> File) list"

datatype error = Error string | AxiosError "nat option"

datatype effect =
    Http request
  | ConsoleError string error
  | InvalidateQueries string
  | ScrollToTop

type_synonym 'd axios = "request \<Rightarrow> error + 'd"

text \<open>\<^verbatim>\<open>process.env.REACT_APP_API_URL || 'http://localhost:8000/api'\<close>\<close>

definition API_URL :: "string option \<Rightarrow> string" where
  "API_URL env =
     (case env of
        None \<Rightarrow> ''http://localhost:8000/api''
      | Some u \<Rightarrow> if u = [] then ''http://localhost:8000/api'' else u)"

definition MAX_FILE_SIZE :: nat where
  "MAX_FILE_SIZE = 10 * 1024 * 1024"

definition uploadFile :: "string \<Rightarrow> 'd axios \<Rightarrow> File \<Rightarrow> (error + 'd) \<times> effect list" where
  "uploadFile api axios file =
     (if file_size file > MAX_FILE_SIZE then
        (Inl (Error (''Maximum file size allowed is 10MB. Your file is ''
                       @ toFixed2_MB (file_size file) @ ''MB'')), [])
      else
        (let req = \<lparr>req_method = POST, req_url = api @ ''/files/'',
                      req_headers = [(''Content-Type'', ''multipart/form-data'')],
                      req_form = [(''file'', file)]\<rparr>
         in (axios req, [Http req])))"

record GetFilesParams =
  page :: "int number option"
  search :: "string option"
  filename :: "string option"
  file_type :: "string option"
  min_size :: "int number option"
  max_size :: "int number option"
  date_after :: "int number option"
  date_before :: "int number option"

text \<open>
  The \<^verbatim>\<open>URLSearchParams\<close> object that \<^verbatim>\<open>getFiles\<close> builds, as the list of its (name, value)
  entries in the order of the \<^verbatim>\<open>append\<close> calls. The two kinds of guard of the source are kept
  apart: \<^verbatim>\<open>if (x)\<close> (truthiness) and \<^verbatim>\<open>if (x !== undefined)\<close>.
\<close>

definition append_if_truthy_string ::
  "(string \<times> string) list \<Rightarrow> string \<Rightarrow> string option \<Rightarrow> (string \<times> string) list" where
  "append_if_truthy_string q name v =
     (case v of None \<Rightarrow> q | Some s \<Rightarrow> if s \<noteq> [] then q @ [(name, s)] else q)"

definition append_if_defined ::
  "(string \<times> string) list \<Rightarrow> string \<Rightarrow> int number option \<Rightarrow> (string \<times> string) list" where
  "append_if_defined q name v =
     (case v of None \<Rightarrow> q | Some n \<Rightarrow> q @ [(name, toString n)])"

definition append_if_truthy_number ::
  "(string \<times> string) list \<Rightarrow> string \<Rightarrow> int number option \<Rightarrow> (string \<times> string) list" where
  "append_if_truthy_number q name v =
     (case v of None \<Rightarrow> q | Some n \<Rightarrow> if truthy n then q @ [(name, toString n)] else q)"

definition getFiles_queryParams :: "GetFilesParams \<Rightarrow> (string \<times> string) list" where
  "getFiles_queryParams params =
     (let page' = (case page params of None \<Rightarrow> Fin 1 | Some p \<Rightarrow> p);
          q0 = [(''page'', toString page')];
          q1 = append_if_truthy_string q0 ''search'' (search params);
          q2 = append_if_truthy_string q1 ''filename'' (filename params);
          q3 = append_if_truthy_string q2 ''file_type'' (file_type params);
          q4 = append_if_defined q3 ''min_size'' (min_size params);
          q5 = append_if_defined q4 ''max_size'' (max_size params);
          q6 = append_if_truthy_number q5 ''date_after_epoch'' (date_after params);
          q7 = append_if_truthy_number q6 ''date_before_epoch'' (date_before params)
      in q7)"

text \<open>
  \<^verbatim>\<open>URLSearchParams.prototype.toString\<close>: the form-urlencoded serialisation. Letters, digits
  and \<^verbatim>\<open>*-._\<close> stay, a space becomes \<^verbatim>\<open>+\<close>, every other byte is percent-encoded.
\<close>

definition hex_digit :: "nat \<Rightarrow> char" where
  "hex_digit d = ''0123456789ABCDEF'' ! d"

definition urlencode_char :: "char \<Rightarrow> string" where
  "urlencode_char c =
     (let n = (of_char c :: nat) in
      if (48 \<le> n \<and> n \<le> 57) \<or> (65 \<le> n \<and> n \<le> 90) \<or> (97 \<le> n \<and> n \<le> 122)
         \<or> c \<in> set ''*-._'' then [c]
      else if c = CHR '' '' then ''+''
      else [CHR ''%'', hex_digit (n div 16), hex_digit (n mod 16)])"

definition urlencode :: "string \<Rightarrow> string" where
  "urlencode s = concat (map urlencode_char s)"

fun URLSearchParams_toString :: "(string \<times> string) list \<Rightarrow> string" where
  "URLSearchParams_toString [] = []"
| "URLSearchParams_toString [(k, v)] = urlencode k @ ''='' @ urlencode v"
| "URLSearchParams_toString ((k, v) # kvs) =
     urlencode k @ ''='' @ urlencode v @ ''&'' @ URLSearchParams_toString kvs"

definition getFiles :: "string \<Rightarrow> 'd axios \<Rightarrow> GetFilesParams \<Rightarrow> (error + 'd) \<times> effect list" where
  "getFiles api axios params =
     (let queryParams = getFiles_queryParams params;
          req = \<lparr>req_method = GET,
                 req_url = api @ ''/files/?'' @ URLSearchParams_toString queryParams,
                 req_headers = [], req_form = []\<rparr>
      in (axios req, [Http req]))"

definition deleteFile :: "string \<Rightarrow> 'd axios \<Rightarrow> string \<Rightarrow> (error + unit) \<times> effect list" where
  "deleteFile api axios ident =
     (let req = \<lparr>req_method = DELETE, req_url = api @ ''/files/'' @ ident @ ''/'',
                   req_headers = [], req_form = []\<rparr>
      in (case axios req of Inl e \<Rightarrow> Inl e | Inr r \<Rightarrow> Inr (), [Http req]))"

definition getStorageStats :: "string \<Rightarrow> 'd axios \<Rightarrow> (error + 'd) \<times> effect list" where
  "getStorageStats api axios =
     (let req = \<lparr>req_method = GET, req_url = api @ ''/files/storage_stats/'',
                   req_headers = [], req_form = []\<rparr>
      in (axios req, [Http req]))"

text \<open>
  The body of the file-types response: \<^verbatim>\<open>file_types\<close> may be missing, and then
  \<^verbatim>\<open>response.data.file_types || []\<close> is the empty list (an array, also an empty one, is truthy).
\<close>

record FileTypesData =
  file_types :: "string list option"

definition getFileTypes ::
  "string \<Rightarrow> FileTypesData axios \<Rightarrow> (error + string list) \<times> effect list" where
  "getFileTypes api axios =
     (let req = \<lparr>req_method = GET, req_url = api @ ''/files/file_types/'',
                   req_headers = [], req_form = []\<rparr>
      in case axios req of
           Inr d \<Rightarrow> (Inr (case file_types d of None \<Rightarrow> [] | Some ts \<Rightarrow> ts), [Http req])
         | Inl e \<Rightarrow> (Inr [], [Http req, ConsoleError ''Error fetching file types:'' e]))"


section \<open>components/FileList.tsx\<close>

record 'f PaginatedResponse =
  count :: int
  "next" :: "string option"
  previous :: "string option"
  results :: "'f list"

text \<open>\<^verbatim>\<open>v || d\<close> on an optional integer: a missing value and \<open>0\<close> both give the default.\<close>

definition or_int :: "int option \<Rightarrow> int \<Rightarrow> int" where
  "or_int v d = (case v of None \<Rightarrow> d | Some x \<Rightarrow> if x = 0 then d else x)"

definition or_string :: "string option \<Rightarrow> string \<Rightarrow> string" where
  "or_string v d = (case v of None \<Rightarrow> d | Some x \<Rightarrow> if x = [] then d else x)"



text \<open>
  \<^verbatim>\<open>handleDelete\<close> awaits the delete mutation (whose \<^verbatim>\<open>onSuccess\<close> invalidates the two queries)
  inside \<^verbatim>\<open>try\<close>/\<^verbatim>\<open>catch\<close>; it returns nothing, so only its effects are kept.
\<close>

definition handleDelete :: "string \<Rightarrow> 'd axios \<Rightarrow> string \<Rightarrow> effect list" where
  "handleDelete api axios ident =
     (case deleteFile api axios ident of
        (Inr u, es) \<Rightarrow> es @ [InvalidateQueries ''files'', InvalidateQueries ''storage-stats'']
      | (Inl err, es) \<Rightarrow> es @ [ConsoleError ''Delete error:'' err])"


section \<open>components/FileFilter.tsx\<close>

text \<open>
  A \<^verbatim>\<open>Date\<close> is its time value, milliseconds since the epoch. The date inputs only produce
  valid dates, so the invalid date is left out, and so is the clipping of time values
  beyond the range of \<^verbatim>\<open>Date\<close>.
\<close>

type_synonym Date = int

record FilterCriteria =
  searchTerm :: string
  fileTypes :: "string list"
  sizeRange :: "int number \<times> int number"
  dateRange :: "Date option \<times> Date option"

definition msPerDay :: int where
  "msPerDay = 86400000"

text \<open>
  \<^verbatim>\<open>Date.prototype.setHours\<close> works in local time, and local time is the host's: the
  language fixes the computation and leaves the offsets to the time zone data. A zone is
  therefore a parameter, given by its two offset functions: the offset in force at a UTC
  instant, and the offset by which a local time is read back (which, for a local time that
  a transition repeats or skips, is the offset before the transition).
\<close>

record zone =
  offset_at_utc :: "int \<Rightarrow> int"
  offset_at_local :: "int \<Rightarrow> int"

definition LocalTime :: "zone \<Rightarrow> int \<Rightarrow> int" where
  "LocalTime z t = t + offset_at_utc z t"

definition UTC :: "zone \<Rightarrow> int \<Rightarrow> int" where
  "UTC z t = t - offset_at_local z t"

definition Day :: "int \<Rightarrow> int" where
  "Day t = t div msPerDay"

definition MakeTime :: "int \<Rightarrow> int \<Rightarrow> int \<Rightarrow> int \<Rightarrow> int" where
  "MakeTime h m sec ms = ((h * 60 + m) * 60 + sec) * 1000 + ms"

definition MakeDate :: "int \<Rightarrow> int \<Rightarrow> int" where
  "MakeDate day time = day * msPerDay + time"

text \<open>
  \<^verbatim>\<open>d.setHours(h, m, sec, ms)\<close>: the local day of \<open>d\<close> is kept, the time within the day is
  replaced, and the local time so made is read back as an instant.
\<close>

definition setHours :: "zone \<Rightarrow> Date \<Rightarrow> int \<Rightarrow> int \<Rightarrow> int \<Rightarrow> int \<Rightarrow> Date" where
  "setHours z t h m sec ms = UTC z (MakeDate (Day (LocalTime z t)) (MakeTime h m sec ms))"

text \<open>
  A property of a zone: every instant lies between 00:00:00.000 and 23:59:59.999 of its
  own local day, as instants. It holds where the offset never changes and where the
  transitions stay clear of midnight.
\<close>

definition day_bounds_enclose :: "zone \<Rightarrow> bool" where
  "day_bounds_enclose z \<longleftrightarrow>
     (\<forall>t. setHours z t 0 0 0 0 \<le> t \<and> t \<le> setHours z t 23 59 59 999)"

definition initialFilters :: FilterCriteria where
  "initialFilters =
     \<lparr>searchTerm = [], fileTypes = [], sizeRange = (Fin 0, PosInfinity),
      dateRange = (None, None)\<rparr>"

text \<open>
  The handlers return the filter state they pass to \<^verbatim>\<open>setFilters\<close> and \<^verbatim>\<open>onFilterChange\<close>,
  and whether the adjustment notice is shown.
\<close>

definition handleFileTypeToggle :: "FilterCriteria \<Rightarrow> string \<Rightarrow> FilterCriteria" where
  "handleFileTypeToggle filters fileType =
     (let newFileTypes =
            (if fileType \<in> set (fileTypes filters)
             then filter (\<lambda>ty. ty \<noteq> fileType) (fileTypes filters)
             else fileTypes filters @ [fileType])
      in filters\<lparr>fileTypes := newFileTypes\<rparr>)"

definition handleSizeChange ::
  "FilterCriteria \<Rightarrow> int number \<Rightarrow> int number \<Rightarrow> FilterCriteria \<times> bool" where
  "handleSizeChange filters mn mx =
     (let needsAdjustment = greater_js mn mx;
          validatedMax = (if needsAdjustment then mn else mx);
          newFilters = filters\<lparr>sizeRange := (mn, validatedMax)\<rparr>
      in (newFilters, needsAdjustment))"

definition handleDateChange ::
  "zone \<Rightarrow> FilterCriteria \<Rightarrow> Date option \<Rightarrow> Date option \<Rightarrow> FilterCriteria \<times> bool" where
  "handleDateChange z filters start end' =
     (let adjustedStart = map_option (\<lambda>d. setHours z d 0 0 0 0) start;
          needsAdjustment =
            (case (start, end') of (Some s, Some e) \<Rightarrow> s > e | _ \<Rightarrow> False);
          adjustedEnd = (if needsAdjustment then start else end');
          adjustedEnd = map_option (\<lambda>d. setHours z d 23 59 59 999) adjustedEnd;
          newFilters = filters\<lparr>dateRange := (adjustedStart, adjustedEnd)\<rparr>
      in (newFilters, needsAdjustment))"

definition clearFilters :: FilterCriteria where
  "clearFilters =
     \<lparr>searchTerm = [], fileTypes = [], sizeRange = (Fin 0, PosInfinity),
      dateRange = (None, None)\<rparr>"

text \<open>A stored date range is in order when both ends are set and the first is not after
  the second, or when an end is missing.\<close>

definition dates_ordered :: "Date option \<times> Date option \<Rightarrow> bool" where
  "dates_ordered r = (case r of (Some a, Some b) \<Rightarrow> a \<le> b | _ \<Rightarrow> True)"

text \<open>The two range orderings of a filter state.\<close>

definition ranges_ordered :: "FilterCriteria \<Rightarrow> bool" where
  "ranges_ordered f \<longleftrightarrow>
     less_eq_js (fst (sizeRange f)) (snd (sizeRange f)) \<and> dates_ordered (dateRange f)"

text \<open>The values of the two size selects, read with \<^verbatim>\<open>Number(e.target.value)\<close>.\<close>

definition minSizeOptions :: "int number list" where
  "minSizeOptions = [Fin 0, Fin 1024, Fin 102400, Fin 512000, Fin 1048576, Fin 5242880]"

definition maxSizeOptions :: "int number list" where
  "maxSizeOptions = [Fin 1048576, Fin 5242880, Fin 10485760, PosInfinity]"

text \<open>
  The events that replace the filter state, each with the arguments its call site passes,
  and the state after a sequence of them. A select only offers its options. A date input
  yields UTC midnight of a day, or nothing when it is emptied. The effect on the debounced
  search term applies only terms of at least two characters.
\<close>

datatype filter_event =
    SearchApplied string
  | FileTypeToggled string
  | MinSizeSelected "int number"
  | MaxSizeSelected "int number"
  | StartDatePicked "int option"
  | EndDatePicked "int option"
  | ClearAll
  | SizeChipRemoved
  | DateChipRemoved

fun apply_event :: "zone \<Rightarrow> FilterCriteria \<Rightarrow> filter_event \<Rightarrow> FilterCriteria" where
  "apply_event z f (SearchApplied s) =
     (if length s < 2 then f else f\<lparr>searchTerm := s\<rparr>)"
| "apply_event z f (FileTypeToggled ty) = handleFileTypeToggle f ty"
| "apply_event z f (MinSizeSelected v) =
     (if v \<in> set minSizeOptions then fst (handleSizeChange f v (snd (sizeRange f))) else f)"
| "apply_event z f (MaxSizeSelected v) =
     (if v \<in> set maxSizeOptions then fst (handleSizeChange f (fst (sizeRange f)) v) else f)"
| "apply_event z f (StartDatePicked day) =
     fst (handleDateChange z f (map_option (\<lambda>d. d * msPerDay) day) (snd (dateRange f)))"
| "apply_event z f (EndDatePicked day) =
     fst (handleDateChange z f (fst (dateRange f)) (map_option (\<lambda>d. d * msPerDay) day))"
| "apply_event z f ClearAll = clearFilters"
| "apply_event z f SizeChipRemoved = f\<lparr>sizeRange := (Fin 0, PosInfinity)\<rparr>"
| "apply_event z f DateChipRemoved = f\<lparr>dateRange := (None, None)\<rparr>"

definition filters_after :: "zone \<Rightarrow> filter_event list \<Rightarrow> FilterCriteria" where
  "filters_after z evs = foldl (apply_event z) initialFilters evs"


section \<open>components/StorageStats.tsx\<close>

record StorageStatsData =
  total_files :: int
  total_references :: int
  total_size :: int
  total_space_saved :: int
  total_size_readable :: string
  total_space_saved_readable :: string

text \<open>What the component reads from \<^verbatim>\<open>useQuery\<close>, under the names it destructures them to.\<close>

record query =
  stats :: "StorageStatsData option"
  loading :: bool
  queryError :: "error option"

text \<open>
  What \<^verbatim>\<open>useQuery\<close> reports once the query function \<^verbatim>\<open>getStorageStats\<close> has settled: the
  data when it resolved, the error when it rejected, and no loading in either case.
\<close>

definition settled :: "error + StorageStatsData \<Rightarrow> query" where
  "settled outcome =
     (case outcome of
        Inl e \<Rightarrow> \<lparr>stats = None, loading = False, queryError = Some e\<rparr>
      | Inr d \<Rightarrow> \<lparr>stats = Some d, loading = False, queryError = None\<rparr>)"

text \<open>
  Arithmetic on doubles. \<open>fl\<close> rounds a real result to the nearest double; it stays a
  parameter, so what is proved holds for every rounding. The operands are counts, which a
  double holds exactly, and their difference is exact too. Division by zero does not
  raise in JavaScript: it gives an infinity or \<open>NaN\<close>.
\<close>

definition divide_js :: "(real \<Rightarrow> real) \<Rightarrow> int \<Rightarrow> int \<Rightarrow> real number" where
  "divide_js fl a b =
     (if b = 0 then (if a = 0 then NaN else if 0 < a then PosInfinity else NegInfinity)
      else Fin (fl (real_of_int a / real_of_int b)))"

definition times_js :: "(real \<Rightarrow> real) \<Rightarrow> real number \<Rightarrow> int \<Rightarrow> real number" where
  "times_js fl x k =
     (case x of
        NaN \<Rightarrow> NaN
      | Fin r \<Rightarrow> Fin (fl (r * real_of_int k))
      | PosInfinity \<Rightarrow> if 0 < k then PosInfinity else if k < 0 then NegInfinity else NaN
      | NegInfinity \<Rightarrow> if 0 < k then NegInfinity else if k < 0 then PosInfinity else NaN)"

text \<open>\<^verbatim>\<open>Math.round\<close>: the nearest integer, the larger one on a tie.\<close>

definition Math_round :: "real number \<Rightarrow> int number" where
  "Math_round x =
     (case x of
        NaN \<Rightarrow> NaN
      | PosInfinity \<Rightarrow> PosInfinity
      | NegInfinity \<Rightarrow> NegInfinity
      | Fin r \<Rightarrow> Fin \<lfloor>r + 1 / 2\<rfloor>)"

definition efficiency :: "(real \<Rightarrow> real) \<Rightarrow> StorageStatsData option \<Rightarrow> int number" where
  "efficiency fl st =
     (let totalReferences = or_int (map_option total_references st) 0;
          totalFiles = or_int (map_option total_files st) 1
      in if totalReferences = 0 then Fin 0
         else Math_round
                (times_js fl (divide_js fl (totalReferences - totalFiles) totalReferences) 100))"

record dashboard =
  files_uploaded :: int
  unique_files :: int
  dedup_efficiency :: "int number"
  space_consumed :: string
  space_saved :: string

datatype view = Skeleton | ErrorPanel string | Dashboard dashboard

definition StorageStats :: "(real \<Rightarrow> real) \<Rightarrow> query \<Rightarrow> view" where
  "StorageStats fl q =
     (let err = (case queryError q of
                   Some e \<Rightarrow> Some ''Failed to load storage statistics''
                 | None \<Rightarrow> None)
      in if loading q then Skeleton
         else case err of
           Some msg \<Rightarrow> ErrorPanel msg
         | None \<Rightarrow>
             Dashboard
               \<lparr>files_uploaded = or_int (map_option total_references (stats q)) 0,
                unique_files = or_int (map_option total_files (stats q)) 0,
                dedup_efficiency = efficiency fl (stats q),
                space_consumed = or_string (map_option total_size_readable (stats q)) ''0 B'',
                space_saved =
                  or_string (map_option total_space_saved_readable (stats q)) ''0 B''\<rparr>)"


section \<open>The storage core behind the statistics\<close>

text \<open>
  The statistics that the front end displays are computed by the backend's deduplicating
  store, whose code is not among the sources at hand; only the start script and the
  front end's declaration \<^verbatim>\<open>StorageStatsData\<close> are. The definitions of this section follow
  the specification's data model and component contracts. The bytes of a blob play no part
  in the counters and are left out.
\<close>

type_synonym digest = string
type_synonym bytes = string

text \<open>Modelled from the spec: the Blob of the data model, one per content hash.\<close>

record Blob =
  content_hash :: digest
  size_bytes :: nat
  storage_key :: string
  reference_count :: int
  created_at :: nat

text \<open>Modelled from the spec: the FileRecord of the data model, one per upload.\<close>

record FileRecord =
  fr_id :: nat
  fr_original_filename :: string
  fr_content_hash :: digest
  fr_file_type :: string
  fr_size_bytes :: nat
  fr_uploaded_at :: nat

text \<open>
  Modelled from the spec: the persisted state, the collection of blobs and the collection
  of file records, with the next identifier to hand out.
\<close>

record ledger =
  blobs :: "Blob list"
  records :: "FileRecord list"
  next_id :: nat

text \<open>Modelled from the spec: the error taxonomy, as far as these operations raise it.\<close>

datatype core_error = SizeLimitExceeded | IntegrityError | NotFoundError | ConsistencyFault

text \<open>Modelled from the spec: the fixed size ceiling of 10 MiB.\<close>

definition size_ceiling :: nat where
  "size_ceiling = 10 * 1024 * 1024"

text \<open>
  Modelled from the spec: \<^verbatim>\<open>HashingIngestor.ingest\<close>, which computes digest and size and fails
  once the length crosses the ceiling. The digest function \<open>H\<close> is a parameter.
\<close>

definition ingest :: "(bytes \<Rightarrow> digest) \<Rightarrow> bytes \<Rightarrow> core_error + digest \<times> nat" where
  "ingest H stream =
     (if length stream > size_ceiling then Inl SizeLimitExceeded
      else Inr (H stream, length stream))"

text \<open>Modelled from the spec: the store before the first upload.\<close>

definition empty_ledger :: ledger where
  "empty_ledger = \<lparr>blobs = [], records = [], next_id = 0\<rparr>"

text \<open>
  Modelled from the spec: \<^verbatim>\<open>ReferenceLedger.resolve_or_create\<close>. A known digest gets one
  more reference, after the declared size is checked against the blob's; an unknown one
  gets a new blob with one reference. Either way a new file record is created.
\<close>

definition resolve_or_create ::
  "ledger \<Rightarrow> digest \<Rightarrow> nat \<Rightarrow> string \<Rightarrow> string \<Rightarrow> nat \<Rightarrow> core_error + FileRecord \<times> ledger" where
  "resolve_or_create s d n fname ftype now =
     (let r = \<lparr>fr_id = next_id s, fr_original_filename = fname, fr_content_hash = d,
                fr_file_type = ftype, fr_size_bytes = n, fr_uploaded_at = now\<rparr>
      in case find (\<lambda>b. content_hash b = d) (blobs s) of
           Some b \<Rightarrow>
             if size_bytes b \<noteq> n then Inl IntegrityError
             else Inr (r, s\<lparr>blobs := map (\<lambda>x. if content_hash x = d
                                               then x\<lparr>reference_count := reference_count x + 1\<rparr>
                                               else x) (blobs s),
                             records := records s @ [r],
                             next_id := next_id s + 1\<rparr>)
         | None \<Rightarrow>
             Inr (r, s\<lparr>blobs := blobs s @ [\<lparr>content_hash = d, size_bytes = n, storage_key = d,
                                              reference_count = 1, created_at = now\<rparr>],
                        records := records s @ [r],
                        next_id := next_id s + 1\<rparr>))"

text \<open>Modelled from the spec: \<^verbatim>\<open>GCReaper.reap\<close>, which removes the blob of a digest, if any.\<close>

definition reap :: "ledger \<Rightarrow> digest \<Rightarrow> ledger" where
  "reap s d = s\<lparr>blobs := filter (\<lambda>b. content_hash b \<noteq> d) (blobs s)\<rparr>"

text \<open>
  Modelled from the spec: \<^verbatim>\<open>ReferenceLedger.release\<close>. It deletes the file record, takes one
  reference from its blob, and reaps the blob when none is left; an unknown identifier is
  a \<^verbatim>\<open>NotFoundError\<close>, a missing blob or a negative count a \<^verbatim>\<open>ConsistencyFault\<close>.
\<close>

definition release :: "ledger \<Rightarrow> nat \<Rightarrow> core_error + ledger" where
  "release s i =
     (case find (\<lambda>r. fr_id r = i) (records s) of
        None \<Rightarrow> Inl NotFoundError
      | Some r \<Rightarrow>
          (case find (\<lambda>b. content_hash b = fr_content_hash r) (blobs s) of
             None \<Rightarrow> Inl ConsistencyFault
           | Some b \<Rightarrow>
               if reference_count b - 1 < 0 then Inl ConsistencyFault
               else
                 (let s' = s\<lparr>records := filter (\<lambda>x. fr_id x \<noteq> i) (records s),
                              blobs := map (\<lambda>x. if content_hash x = fr_content_hash r
                                                 then x\<lparr>reference_count := reference_count x - 1\<rparr>
                                                 else x) (blobs s)\<rparr>
                  in if reference_count b - 1 = 0 then Inr (reap s' (fr_content_hash r))
                     else Inr s')))"

text \<open>Modelled from the spec: the StorageStatsSnapshot and \<^verbatim>\<open>StatsAggregator.snapshot\<close>.\<close>

record StorageStatsSnapshot =
  snap_total_files :: int
  snap_total_references :: int
  snap_total_size :: int
  snap_total_space_saved :: int

definition snapshot :: "ledger \<Rightarrow> StorageStatsSnapshot" where
  "snapshot s =
     (let total = (\<Sum>b\<leftarrow>blobs s. int (size_bytes b))
      in \<lparr>snap_total_files = int (length (blobs s)),
          snap_total_references = int (length (records s)),
          snap_total_size = total,
          snap_total_space_saved = (\<Sum>r\<leftarrow>records s. int (fr_size_bytes r)) - total\<rparr>)"

text \<open>
  Modelled from the spec: the requests that change the store, and the states reached from
  the empty store by any sequence of them. A request that fails leaves the state as it
  was (an upload is all or nothing).
\<close>

datatype operation = Upload bytes string string nat | Delete nat

definition step :: "(bytes \<Rightarrow> digest) \<Rightarrow> ledger \<Rightarrow> operation \<Rightarrow> ledger" where
  "step H s op =
     (case op of
        Upload stream fname ftype now \<Rightarrow>
          (case ingest H stream of
             Inl e \<Rightarrow> s
           | Inr (d, n) \<Rightarrow>
               (case resolve_or_create s d n fname ftype now of
                  Inl e \<Rightarrow> s
                | Inr (r, s') \<Rightarrow> s'))
      | Delete i \<Rightarrow> (case release s i of Inl e \<Rightarrow> s | Inr s' \<Rightarrow> s'))"

definition run :: "(bytes \<Rightarrow> digest) \<Rightarrow> operation list \<Rightarrow> ledger" where
  "run H ops = foldl (step H) empty_ledger ops"

text \<open>
  The invariant of the reachable states: one blob per digest, one record per identifier,
  every reference count positive and equal to the number of records of that digest, every
  record backed by a blob of its digest and size, and the sizes of the records adding up
  to the sizes of the blobs weighted by their counts.
\<close>

definition ledger_inv :: "ledger \<Rightarrow> bool" where
  "ledger_inv s \<longleftrightarrow>
     distinct (map content_hash (blobs s)) \<and>
     distinct (map fr_id (records s)) \<and>
     (\<forall>b \<in> set (blobs s).
        1 \<le> reference_count b \<and>
        reference_count b =
          int (length (filter (\<lambda>r. fr_content_hash r = content_hash b) (records s)))) \<and>
     (\<forall>r \<in> set (records s). fr_id r < next_id s \<and>
        (\<exists>b \<in> set (blobs s). content_hash b = fr_content_hash r \<and>
                                size_bytes b = fr_size_bytes r)) \<and>
     (\<Sum>r\<leftarrow>records s. int (fr_size_bytes r)) =
       (\<Sum>b\<leftarrow>blobs s. reference_count b * int (size_bytes b))"


section \<open>Sample backends and zones\<close>

text \<open>Three backends for the concrete instances below: one that cannot be reached, one that
  accepts every request, one that answers every request with status 404.\<close>

definition unreachable_backend :: "'d axios" where
  "unreachable_backend req = Inl (AxiosError None)"

definition accepting_backend :: "unit axios" where
  "accepting_backend req = Inr ()"

definition not_found_backend :: "'d axios" where
  "not_found_backend req = Inl (AxiosError (Some 404))"

text \<open>
  Two zones: one at a fixed offset from UTC, and Europe/Berlin around 29 October 2023,
  when at 01:00 UTC the offset went from two hours to one (local 03:00 became 02:00).
\<close>

definition fixed_zone :: "int \<Rightarrow> zone" where
  "fixed_zone off = \<lparr>offset_at_utc = (\<lambda>t. off), offset_at_local = (\<lambda>t. off)\<rparr>"



section \<open>Upload size ceiling\<close>

text \<open>
  C1. A file of more than \<open>10 * 1024 * 1024\<close> bytes makes \<^verbatim>\<open>uploadFile\<close> throw with no effect
  at all (no request is sent); a file of at most that size, the file of exactly 10 MiB
  included, is posted to \<^verbatim>\<open>/files/\<close>, and the outcome is the backend's.
\<close>

theorem uploadFile_size_ceiling:
  "(file_size f > 10 * 1024 * 1024 \<longrightarrow>
      (\<exists>msg. uploadFile api ax f = (Inl (Error msg), []))) \<and>
   (file_size f \<le> 10 * 1024 * 1024 \<longrightarrow>
      (\<exists>req. req_method req = POST \<and> req_url req = api @ ''/files/'' \<and>
             req_form req = [(''file'', f)] \<and>
             uploadFile api ax f = (ax req, [Http req])))"
  by (simp add: uploadFile_def MAX_FILE_SIZE_def Let_def)

theorem uploadFile_size_ceiling_witness:
  "file_size \<lparr>file_name = ''a.bin'', file_size = 10485761\<rparr> > 10 * 1024 * 1024 \<and>
   (\<exists>msg. uploadFile ''/api'' accepting_backend \<lparr>file_name = ''a.bin'', file_size = 10485761\<rparr>
            = (Inl (Error msg), [])) \<and>
   file_size \<lparr>file_name = ''b.bin'', file_size = 10485760\<rparr> \<le> 10 * 1024 * 1024 \<and>
   (\<exists>req. req_method req = POST \<and> req_url req = ''/api'' @ ''/files/'' \<and>
          req_form req = [(''file'', \<lparr>file_name = ''b.bin'', file_size = 10485760\<rparr>)] \<and>
          uploadFile ''/api'' accepting_backend \<lparr>file_name = ''b.bin'', file_size = 10485760\<rparr>
            = (accepting_backend req, [Http req]))"
  using uploadFile_size_ceiling [of "\<lparr>file_name = ''a.bin'', file_size = 10485761\<rparr>" "''/api''" accepting_backend]
        uploadFile_size_ceiling [of "\<lparr>file_name = ''b.bin'', file_size = 10485760\<rparr>" "''/api''" accepting_backend]
  by simp

text \<open>The message of the error, at one byte over the ceiling.\<close>

lemma uploadFile_message:
  "fst (uploadFile ''/api'' accepting_backend \<lparr>file_name = ''a.bin'', file_size = 10485761\<rparr>)
     = Inl (Error ''Maximum file size allowed is 10MB. Your file is 10.00MB'')"
  by (simp add: uploadFile_def MAX_FILE_SIZE_def toFixed2_MB_def Let_def)


section \<open>Query parameters of the listing request\<close>

lemma truthy_string_other:
  "k \<noteq> name \<Longrightarrow> map_of (append_if_truthy_string q name v) k = map_of q k"
  by (simp add: append_if_truthy_string_def map_add_def split: option.splits)

lemma truthy_string_here:
  "map_of q name = None \<Longrightarrow>
   map_of (append_if_truthy_string q name v) name =
     (case v of None \<Rightarrow> None | Some s \<Rightarrow> if s = [] then None else Some s)"
  by (simp add: append_if_truthy_string_def map_add_def split: option.splits)

lemma defined_other:
  "k \<noteq> name \<Longrightarrow> map_of (append_if_defined q name v) k = map_of q k"
  by (simp add: append_if_defined_def map_add_def split: option.splits)

lemma defined_here:
  "map_of q name = None \<Longrightarrow>
   map_of (append_if_defined q name v) name = map_option toString v"
  by (simp add: append_if_defined_def map_add_def split: option.splits)

lemma truthy_number_other:
  "k \<noteq> name \<Longrightarrow> map_of (append_if_truthy_number q name v) k = map_of q k"
  by (simp add: append_if_truthy_number_def map_add_def split: option.splits)

lemma truthy_number_here:
  "map_of q name = None \<Longrightarrow>
   map_of (append_if_truthy_number q name v) name =
     (case v of None \<Rightarrow> None | Some n \<Rightarrow> if truthy n then Some (toString n) else None)"
  by (simp add: append_if_truthy_number_def map_add_def split: option.splits)

lemmas map_of_appends =
  truthy_string_other truthy_string_here defined_other defined_here
  truthy_number_other truthy_number_here

lemma keys_append_if_truthy_string:
  "map fst (append_if_truthy_string q name v) =
     map fst q @ (case v of None \<Rightarrow> [] | Some s \<Rightarrow> if s \<noteq> [] then [name] else [])"
  by (simp add: append_if_truthy_string_def split: option.splits)

lemma keys_append_if_defined:
  "map fst (append_if_defined q name v) =
     map fst q @ (case v of None \<Rightarrow> [] | Some n \<Rightarrow> [name])"
  by (simp add: append_if_defined_def split: option.splits)

lemma keys_append_if_truthy_number:
  "map fst (append_if_truthy_number q name v) =
     map fst q @ (case v of None \<Rightarrow> [] | Some n \<Rightarrow> if truthy n then [name] else [])"
  by (simp add: append_if_truthy_number_def split: option.splits)

lemma queryParams_keys:
  "map fst (getFiles_queryParams p) =
     [''page'']
     @ (case search p of None \<Rightarrow> [] | Some s \<Rightarrow> if s \<noteq> [] then [''search''] else [])
     @ (case filename p of None \<Rightarrow> [] | Some s \<Rightarrow> if s \<noteq> [] then [''filename''] else [])
     @ (case file_type p of None \<Rightarrow> [] | Some s \<Rightarrow> if s \<noteq> [] then [''file_type''] else [])
     @ (case min_size p of None \<Rightarrow> [] | Some n \<Rightarrow> [''min_size''])
     @ (case max_size p of None \<Rightarrow> [] | Some n \<Rightarrow> [''max_size''])
     @ (case date_after p of None \<Rightarrow> [] | Some n \<Rightarrow> if truthy n then [''date_after_epoch''] else [])
     @ (case date_before p of None \<Rightarrow> [] | Some n \<Rightarrow> if truthy n then [''date_before_epoch''] else [])"
  by (simp add: getFiles_queryParams_def Let_def keys_append_if_truthy_string
      keys_append_if_defined keys_append_if_truthy_number)

lemma queryParams_distinct: "distinct (map fst (getFiles_queryParams p))"
  unfolding queryParams_keys by (simp split: option.splits)

lemma qp_search:
  "map_of (getFiles_queryParams p) ''search'' =
     (case search p of None \<Rightarrow> None | Some s \<Rightarrow> if s = [] then None else Some s)"
  by (simp add: getFiles_queryParams_def Let_def map_of_appends)

lemma qp_filename:
  "map_of (getFiles_queryParams p) ''filename'' =
     (case filename p of None \<Rightarrow> None | Some s \<Rightarrow> if s = [] then None else Some s)"
  by (simp add: getFiles_queryParams_def Let_def map_of_appends)

lemma qp_file_type:
  "map_of (getFiles_queryParams p) ''file_type'' =
     (case file_type p of None \<Rightarrow> None | Some s \<Rightarrow> if s = [] then None else Some s)"
  by (simp add: getFiles_queryParams_def Let_def map_of_appends)

lemma qp_min_size:
  "map_of (getFiles_queryParams p) ''min_size'' = map_option toString (min_size p)"
  by (simp add: getFiles_queryParams_def Let_def map_of_appends)

lemma qp_max_size:
  "map_of (getFiles_queryParams p) ''max_size'' = map_option toString (max_size p)"
  by (simp add: getFiles_queryParams_def Let_def map_of_appends)

lemma qp_date_after:
  "map_of (getFiles_queryParams p) ''date_after_epoch'' =
     (case date_after p of None \<Rightarrow> None | Some n \<Rightarrow> if truthy n then Some (toString n) else None)"
  by (simp add: getFiles_queryParams_def Let_def map_of_appends)

lemma qp_date_before:
  "map_of (getFiles_queryParams p) ''date_before_epoch'' =
     (case date_before p of None \<Rightarrow> None | Some n \<Rightarrow> if truthy n then Some (toString n) else None)"
  by (simp add: getFiles_queryParams_def Let_def map_of_appends)

text \<open>
  C2, as amended. Every name occurs at most once in the query. \<^verbatim>\<open>search\<close>, \<^verbatim>\<open>filename\<close> and
  \<^verbatim>\<open>file_type\<close> are sent exactly when they are given and not the empty string; \<^verbatim>\<open>min_size\<close>
  and \<^verbatim>\<open>max_size\<close> exactly when they are given, a given \<open>0\<close> included; \<^verbatim>\<open>date_after\<close> and
  \<^verbatim>\<open>date_before\<close> are sent under the names \<^verbatim>\<open>date_after_epoch\<close> and \<^verbatim>\<open>date_before_epoch\<close> when
  they are given and truthy, and are absent when they are not given.
\<close>

theorem getFiles_query_filters:
  "distinct (map fst (getFiles_queryParams p)) \<and>
   map_of (getFiles_queryParams p) ''search'' =
     (case search p of None \<Rightarrow> None | Some s \<Rightarrow> if s = [] then None else Some s) \<and>
   map_of (getFiles_queryParams p) ''filename'' =
     (case filename p of None \<Rightarrow> None | Some s \<Rightarrow> if s = [] then None else Some s) \<and>
   map_of (getFiles_queryParams p) ''file_type'' =
     (case file_type p of None \<Rightarrow> None | Some s \<Rightarrow> if s = [] then None else Some s) \<and>
   map_of (getFiles_queryParams p) ''min_size'' = map_option toString (min_size p) \<and>
   map_of (getFiles_queryParams p) ''max_size'' = map_option toString (max_size p) \<and>
   (date_after p = None \<longrightarrow> map_of (getFiles_queryParams p) ''date_after_epoch'' = None) \<and>
   (\<forall>n. date_after p = Some n \<and> truthy n \<longrightarrow>
        map_of (getFiles_queryParams p) ''date_after_epoch'' = Some (toString n)) \<and>
   (date_before p = None \<longrightarrow> map_of (getFiles_queryParams p) ''date_before_epoch'' = None) \<and>
   (\<forall>n. date_before p = Some n \<and> truthy n \<longrightarrow>
        map_of (getFiles_queryParams p) ''date_before_epoch'' = Some (toString n)) \<and>
   map_of (getFiles_queryParams p) ''date_after'' = None \<and>
   map_of (getFiles_queryParams p) ''date_before'' = None"
proof -
  have a: "map_of (getFiles_queryParams p) ''date_after'' = None"
    by (simp add: getFiles_queryParams_def Let_def map_of_appends)
  have b: "map_of (getFiles_queryParams p) ''date_before'' = None"
    by (simp add: getFiles_queryParams_def Let_def map_of_appends)
  show ?thesis
    by (simp add: queryParams_distinct qp_search qp_filename qp_file_type qp_min_size
        qp_max_size qp_date_after qp_date_before a b split: option.splits)
qed

theorem getFiles_query_filters_witness:
  "date_after \<lparr>page = Some (Fin 2), search = Some ''report'', filename = None,
        file_type = Some ''application/pdf'', min_size = Some (Fin 0),
        max_size = Some (Fin 5242880), date_after = Some (Fin 1700000000000),
        date_before = None\<rparr> = Some (Fin 1700000000000) \<and>
   truthy (Fin 1700000000000) \<and>
   date_before \<lparr>page = Some (Fin 2), search = Some ''report'', filename = None,
        file_type = Some ''application/pdf'', min_size = Some (Fin 0),
        max_size = Some (Fin 5242880), date_after = Some (Fin 1700000000000),
        date_before = None\<rparr> = None \<and>
   map_of (getFiles_queryParams \<lparr>page = Some (Fin 2), search = Some ''report'', filename = None,
        file_type = Some ''application/pdf'', min_size = Some (Fin 0),
        max_size = Some (Fin 5242880), date_after = Some (Fin 1700000000000),
        date_before = None\<rparr>) ''date_after_epoch'' = Some ''1700000000000'' \<and>
   map_of (getFiles_queryParams \<lparr>page = Some (Fin 2), search = Some ''report'', filename = None,
        file_type = Some ''application/pdf'', min_size = Some (Fin 0),
        max_size = Some (Fin 5242880), date_after = Some (Fin 1700000000000),
        date_before = None\<rparr>) ''date_before_epoch'' = None \<and>
   map_of (getFiles_queryParams \<lparr>page = Some (Fin 2), search = Some ''report'', filename = None,
        file_type = Some ''application/pdf'', min_size = Some (Fin 0),
        max_size = Some (Fin 5242880), date_after = Some (Fin 1700000000000),
        date_before = None\<rparr>) ''min_size'' = Some ''0''"
  using getFiles_query_filters [of "\<lparr>page = Some (Fin 2), search = Some ''report'', filename = None,
        file_type = Some ''application/pdf'', min_size = Some (Fin 0),
        max_size = Some (Fin 5242880), date_after = Some (Fin 1700000000000),
        date_before = None\<rparr>"]
  by simp

text \<open>
  The claim as first stated fails: a \<^verbatim>\<open>search\<close> that is given as the empty string is not in
  the query (while the given \<^verbatim>\<open>min_size\<close> of \<open>0\<close> is).
\<close>

theorem getFiles_query_filters_counterexample:
  "search \<lparr>page = None, search = Some [], filename = None, file_type = None,
            min_size = Some (Fin 0), max_size = None, date_after = None,
            date_before = None\<rparr> = Some [] \<and>
   getFiles_queryParams \<lparr>page = None, search = Some [], filename = None, file_type = None,
            min_size = Some (Fin 0), max_size = None, date_after = None,
            date_before = None\<rparr> = [(''page'', ''1''), (''min_size'', ''0'')]"
  by (simp add: getFiles_queryParams_def Let_def append_if_truthy_string_def
      append_if_defined_def append_if_truthy_number_def)

text \<open>The URL of one listing request, serialised.\<close>

lemma getFiles_url_example:
  "snd (getFiles ''http://localhost:8000/api'' ax \<lparr>page = Some (Fin 2), search = Some ''my report'', filename = None,
        file_type = Some ''application/pdf'', min_size = Some (Fin 0),
        max_size = Some (Fin 5242880), date_after = Some (Fin 1700000000000),
        date_before = None\<rparr>) = [Http \<lparr>req_method = GET, req_url = ''http://localhost:8000/api/files/?page=2&search=my+report&file_type=application%2Fpdf&min_size=0&max_size=5242880&date_after_epoch=1700000000000'', req_headers = [], req_form = []\<rparr>]"
  by (simp add: getFiles_def getFiles_queryParams_def Let_def append_if_truthy_string_def
      append_if_defined_def append_if_truthy_number_def urlencode_def urlencode_char_def hex_digit_def)


section \<open>Failures of the file-types and delete requests\<close>

text \<open>
  C4, as amended. When the file-types request fails, \<^verbatim>\<open>getFileTypes\<close> logs the error to the
  console and resolves with the empty list: the failure does not reach the caller.
\<close>

theorem getFileTypes_swallows_failure:
  "ax \<lparr>req_method = GET, req_url = api @ ''/files/file_types/'',
       req_headers = [], req_form = []\<rparr> = Inl e \<Longrightarrow>
   getFileTypes api ax =
     (Inr [], [Http \<lparr>req_method = GET, req_url = api @ ''/files/file_types/'',
                     req_headers = [], req_form = []\<rparr>,
               ConsoleError ''Error fetching file types:'' e])"
  by (simp add: getFileTypes_def Let_def)

theorem getFileTypes_swallows_failure_witness:
  "unreachable_backend \<lparr>req_method = GET, req_url = ''/api'' @ ''/files/file_types/'',
       req_headers = [], req_form = []\<rparr> = Inl (AxiosError None) \<and>
   getFileTypes ''/api'' unreachable_backend =
     (Inr [], [Http \<lparr>req_method = GET, req_url = ''/api'' @ ''/files/file_types/'',
                     req_headers = [], req_form = []\<rparr>,
               ConsoleError ''Error fetching file types:'' (AxiosError None)])"
  using getFileTypes_swallows_failure [of unreachable_backend "''/api''" "AxiosError None"]
  by (simp add: unreachable_backend_def)

text \<open>
  The claim as first stated fails: with a backend that cannot be reached the request is
  rejected, and \<^verbatim>\<open>getFileTypes\<close> resolves.
\<close>

theorem getFileTypes_counterexample:
  "unreachable_backend \<lparr>req_method = GET, req_url = ''/api'' @ ''/files/file_types/'',
       req_headers = [], req_form = []\<rparr> = Inl (AxiosError None) \<and>
   fst (getFileTypes ''/api'' unreachable_backend) = Inr []"
  by (simp add: getFileTypes_def Let_def unreachable_backend_def)

text \<open>
  C5. When the \<^verbatim>\<open>DELETE\<close> request fails, \<^verbatim>\<open>deleteFile\<close> rejects with that very failure, after
  sending that one request; it resolves only when the request succeeded.
\<close>

theorem deleteFile_rejects_on_failure:
  "(ax \<lparr>req_method = DELETE, req_url = api @ ''/files/'' @ ident @ ''/'',
        req_headers = [], req_form = []\<rparr> = Inl e \<longrightarrow>
      deleteFile api ax ident =
        (Inl e, [Http \<lparr>req_method = DELETE, req_url = api @ ''/files/'' @ ident @ ''/'',
                       req_headers = [], req_form = []\<rparr>])) \<and>
   (fst (deleteFile api ax ident) = Inr () \<longrightarrow>
      (\<exists>r. ax \<lparr>req_method = DELETE, req_url = api @ ''/files/'' @ ident @ ''/'',
                req_headers = [], req_form = []\<rparr> = Inr r))"
  by (auto simp: deleteFile_def Let_def split: sum.splits)

theorem deleteFile_rejects_on_failure_witness:
  "not_found_backend \<lparr>req_method = DELETE, req_url = ''/api'' @ ''/files/'' @ ''42'' @ ''/'',
        req_headers = [], req_form = []\<rparr> = (Inl (AxiosError (Some 404)) :: error + unit) \<and>
   deleteFile ''/api'' (not_found_backend :: unit axios) ''42'' =
     (Inl (AxiosError (Some 404)),
      [Http \<lparr>req_method = DELETE, req_url = ''/api'' @ ''/files/'' @ ''42'' @ ''/'',
              req_headers = [], req_form = []\<rparr>]) \<and>
   fst (deleteFile ''/api'' accepting_backend ''42'') = Inr () \<and>
   (\<exists>r. accepting_backend \<lparr>req_method = DELETE, req_url = ''/api'' @ ''/files/'' @ ''42'' @ ''/'',
        req_headers = [], req_form = []\<rparr> = Inr r)"
  using deleteFile_rejects_on_failure
          [of "not_found_backend :: unit axios" "''/api''" "''42''" "AxiosError (Some 404)"]
        deleteFile_rejects_on_failure [of accepting_backend "''/api''" "''42''"]
  by (simp add: not_found_backend_def accepting_backend_def deleteFile_def Let_def)

text \<open>The list view's handler catches that rejection and logs it.\<close>

lemma handleDelete_logs_failure:
  "ax \<lparr>req_method = DELETE, req_url = api @ ''/files/'' @ ident @ ''/'',
        req_headers = [], req_form = []\<rparr> = Inl e \<Longrightarrow>
   handleDelete api ax ident =
     [Http \<lparr>req_method = DELETE, req_url = api @ ''/files/'' @ ident @ ''/'',
             req_headers = [], req_form = []\<rparr>,
      ConsoleError ''Delete error:'' e]"
  by (simp add: handleDelete_def deleteFile_def Let_def)


section \<open>The statistics panel\<close>

text \<open>
  C6. When the statistics query has failed (\<^verbatim>\<open>useQuery\<close> reports the error, and the query is
  not loading), the component renders the error panel with its fixed message; rendering
  is a total function, so nothing is thrown to the page around it.
\<close>

theorem StorageStats_error_panel:
  "queryError q = Some e \<Longrightarrow> \<not> loading q \<Longrightarrow>
   StorageStats fl q = ErrorPanel ''Failed to load storage statistics''"
  by (simp add: StorageStats_def)

theorem StorageStats_error_panel_witness:
  "queryError \<lparr>stats = None, loading = False, queryError = Some (AxiosError (Some 500))\<rparr>
     = Some (AxiosError (Some 500)) \<and>
   \<not> loading \<lparr>stats = None, loading = False, queryError = Some (AxiosError (Some 500))\<rparr> \<and>
   StorageStats (\<lambda>x. x) \<lparr>stats = None, loading = False, queryError = Some (AxiosError (Some 500))\<rparr>
     = ErrorPanel ''Failed to load storage statistics''"
  using StorageStats_error_panel [of "\<lparr>stats = None, loading = False, queryError = Some (AxiosError (Some 500))\<rparr>"
      "AxiosError (Some 500)" "\<lambda>x. x"]
  by simp

text \<open>From the request to the panel: a failed statistics request ends in the error panel.\<close>

lemma StorageStats_failed_request:
  "ax \<lparr>req_method = GET, req_url = api @ ''/files/storage_stats/'',
       req_headers = [], req_form = []\<rparr> = Inl e \<Longrightarrow>
   StorageStats fl (settled (fst (getStorageStats api ax)))
     = ErrorPanel ''Failed to load storage statistics''"
  by (simp add: getStorageStats_def Let_def settled_def StorageStats_def)

text \<open>
  C10. The efficiency shown is always a finite integer. It is \<open>0\<close> without data and when
  \<^verbatim>\<open>total_references\<close> is \<open>0\<close>; otherwise it is the rounded percentage of
  \<^verbatim>\<open>total_references - total_files\<close> in \<^verbatim>\<open>total_references\<close>, with \<open>1\<close> in place of a
  \<^verbatim>\<open>total_files\<close> of \<open>0\<close>, so the division never has a zero divisor.
\<close>

theorem efficiency_total:
  "(\<exists>n. efficiency fl st = Fin n) \<and>
   efficiency fl None = Fin 0 \<and>
   (total_references s = 0 \<longrightarrow> efficiency fl (Some s) = Fin 0) \<and>
   (total_references s \<noteq> 0 \<longrightarrow>
      efficiency fl (Some s) =
        Fin \<lfloor>fl (fl (real_of_int (total_references s
                                   - (if total_files s = 0 then 1 else total_files s))
                      / real_of_int (total_references s)) * 100) + 1 / 2\<rfloor>)"
  by (cases st)
     (simp_all add: efficiency_def or_int_def Let_def divide_js_def times_js_def Math_round_def)

theorem efficiency_total_witness:
  "total_references \<lparr>total_files = 1, total_references = 3, total_size = 100,
       total_space_saved = 200, total_size_readable = ''100 B'',
       total_space_saved_readable = ''200 B''\<rparr> \<noteq> 0 \<and>
   efficiency (\<lambda>x. x) (Some \<lparr>total_files = 1, total_references = 3, total_size = 100,
       total_space_saved = 200, total_size_readable = ''100 B'',
       total_space_saved_readable = ''200 B''\<rparr>) = Fin 67 \<and>
   total_references \<lparr>total_files = 0, total_references = 0, total_size = 0,
       total_space_saved = 0, total_size_readable = ''0 B'',
       total_space_saved_readable = ''0 B''\<rparr> = 0 \<and>
   efficiency (\<lambda>x. x) (Some \<lparr>total_files = 0, total_references = 0, total_size = 0,
       total_space_saved = 0, total_size_readable = ''0 B'',
       total_space_saved_readable = ''0 B''\<rparr>) = Fin 0"
  using efficiency_total [of "\<lambda>x. x" None "\<lparr>total_files = 1, total_references = 3, total_size = 100,
       total_space_saved = 200, total_size_readable = ''100 B'',
       total_space_saved_readable = ''200 B''\<rparr>"]
    efficiency_total [of "\<lambda>x. x" None "\<lparr>total_files = 0, total_references = 0, total_size = 0,
       total_space_saved = 0, total_size_readable = ''0 B'',
       total_space_saved_readable = ''0 B''\<rparr>"]
  by simp


section \<open>Pagination\<close>










section \<open>The size and date ranges of the filter\<close>

text \<open>
  C8. For numbers \<open>min\<close> and \<open>max\<close> (finite or infinite; the selects never yield \<open>NaN\<close>), the
  size range that \<^verbatim>\<open>handleSizeChange\<close> stores is \<open>(min, max)\<close>, with \<open>min\<close> in place of \<open>max\<close>
  when \<open>min > max\<close>, and its lower bound is at most its upper bound.
\<close>

theorem handleSizeChange_ordered:
  "mn \<noteq> NaN \<Longrightarrow> mx \<noteq> NaN \<Longrightarrow>
   less_eq_js (fst (sizeRange (fst (handleSizeChange f mn mx))))
              (snd (sizeRange (fst (handleSizeChange f mn mx)))) \<and>
   sizeRange (fst (handleSizeChange f mn mx)) = (mn, if greater_js mn mx then mn else mx)"
  by (cases mn; cases mx) (auto simp: handleSizeChange_def Let_def less_eq_js_def greater_js_def)

theorem handleSizeChange_ordered_witness:
  "(Fin 5242880 :: int number) \<noteq> NaN \<and> (Fin 1048576 :: int number) \<noteq> NaN \<and>
   sizeRange (fst (handleSizeChange initialFilters (Fin 5242880) (Fin 1048576)))
     = (Fin 5242880, Fin 5242880) \<and>
   less_eq_js (fst (sizeRange (fst (handleSizeChange initialFilters (Fin 5242880) (Fin 1048576)))))
              (snd (sizeRange (fst (handleSizeChange initialFilters (Fin 5242880) (Fin 1048576)))))"
  using handleSizeChange_ordered
          [where mn = "Fin 5242880" and mx = "Fin 1048576" and f = initialFilters]
  by (simp add: greater_js_def less_eq_js_def)

lemma setHours_day_start:
  "setHours z t 0 0 0 0 = UTC z (Day (LocalTime z t) * msPerDay)"
  by (simp add: setHours_def MakeDate_def MakeTime_def)

lemma setHours_day_end:
  "setHours z t 23 59 59 999 = UTC z (Day (LocalTime z t) * msPerDay + (msPerDay - 1))"
  by (simp add: setHours_def MakeDate_def MakeTime_def msPerDay_def)

lemma Day_bounds: "Day t * msPerDay \<le> t \<and> t < Day t * msPerDay + msPerDay"
proof -
  have "t = Day t * msPerDay + t mod msPerDay"
    by (simp add: Day_def)
  moreover have "0 \<le> t mod msPerDay \<and> t mod msPerDay < msPerDay"
    by (simp add: msPerDay_def)
  ultimately show ?thesis by linarith
qed

text \<open>Every zone at a fixed offset has the property.\<close>

lemma fixed_zone_encloses: "day_bounds_enclose (fixed_zone off)"
  unfolding day_bounds_enclose_def
proof
  fix t
  show "setHours (fixed_zone off) t 0 0 0 0 \<le> t \<and> t \<le> setHours (fixed_zone off) t 23 59 59 999"
    using Day_bounds [of "t + off"]
    by (simp add: setHours_day_start setHours_day_end UTC_def LocalTime_def fixed_zone_def)
qed





text \<open>
  Both orderings hold in the filter state after every sequence of events: the selects
  only ever pass their options, and the date range is stored by \<^verbatim>\<open>handleDateChange\<close> alone
  (in a zone with the property above).
\<close>

lemma less_eq_js_not_NaN: "less_eq_js x y \<Longrightarrow> x \<noteq> NaN \<and> y \<noteq> NaN"
  by (simp add: less_eq_js_def)

lemma minSizeOptions_not_NaN: "v \<in> set minSizeOptions \<Longrightarrow> v \<noteq> NaN"
  by (auto simp: minSizeOptions_def)

lemma maxSizeOptions_not_NaN: "v \<in> set maxSizeOptions \<Longrightarrow> v \<noteq> NaN"
  by (auto simp: maxSizeOptions_def)

lemma handleSizeChange_le:
  "mn \<noteq> NaN \<Longrightarrow> mx \<noteq> NaN \<Longrightarrow>
   less_eq_js (fst (sizeRange (fst (handleSizeChange f mn mx))))
              (snd (sizeRange (fst (handleSizeChange f mn mx))))"
  by (cases mn; cases mx) (auto simp: handleSizeChange_def Let_def less_eq_js_def greater_js_def)

lemma handleSizeChange_dateRange:
  "dateRange (fst (handleSizeChange f mn mx)) = dateRange f"
  by (simp add: handleSizeChange_def Let_def)

lemma handleDateChange_sizeRange:
  "sizeRange (fst (handleDateChange z f a b)) = sizeRange f"
  by (simp add: handleDateChange_def Let_def)

lemma handleDateChange_dates_ordered:
  assumes "day_bounds_enclose z"
  shows "dates_ordered (dateRange (fst (handleDateChange z f a b)))"
proof (cases a)
  case None
  then show ?thesis
    by (cases b) (simp_all add: handleDateChange_def Let_def dates_ordered_def)
next
  case (Some s)
  show ?thesis
  proof (cases b)
    case None
    with Some show ?thesis
      by (simp add: handleDateChange_def Let_def dates_ordered_def)
  next
    case (Some e)
    have lo: "setHours z s 0 0 0 0 \<le> s" and hi: "\<And>t. t \<le> setHours z t 23 59 59 999"
      using assms by (simp_all add: day_bounds_enclose_def)
    have "setHours z s 0 0 0 0 \<le> setHours z s 23 59 59 999"
      using lo hi [of s] by linarith
    moreover have "s \<le> e \<Longrightarrow> setHours z s 0 0 0 0 \<le> setHours z e 23 59 59 999"
      using lo hi [of e] by linarith
    ultimately show ?thesis
      using Some \<open>a = Some s\<close>
      by (simp add: handleDateChange_def Let_def dates_ordered_def)
  qed
qed

lemma apply_event_size_ordered:
  assumes f: "less_eq_js (fst (sizeRange f)) (snd (sizeRange f))"
  shows "less_eq_js (fst (sizeRange (apply_event z f ev))) (snd (sizeRange (apply_event z f ev)))"
proof (cases ev)
  case (MinSizeSelected v)
  show ?thesis
  proof (cases "v \<in> set minSizeOptions")
    case True
    then have "v \<noteq> NaN" "snd (sizeRange f) \<noteq> NaN"
      using f minSizeOptions_not_NaN less_eq_js_not_NaN by blast+
    then show ?thesis
      using handleSizeChange_le [of v "snd (sizeRange f)" f] MinSizeSelected True by simp
  next
    case False
    then show ?thesis using f MinSizeSelected by simp
  qed
next
  case (MaxSizeSelected v)
  show ?thesis
  proof (cases "v \<in> set maxSizeOptions")
    case True
    then have "v \<noteq> NaN" "fst (sizeRange f) \<noteq> NaN"
      using f maxSizeOptions_not_NaN less_eq_js_not_NaN by blast+
    then show ?thesis
      using handleSizeChange_le [of "fst (sizeRange f)" v f] MaxSizeSelected True by simp
  next
    case False
    then show ?thesis using f MaxSizeSelected by simp
  qed
qed (use f in \<open>simp_all add: handleFileTypeToggle_def Let_def clearFilters_def
       handleDateChange_sizeRange less_eq_js_def\<close>)

lemma apply_event_dates_ordered:
  assumes "day_bounds_enclose z" and f: "dates_ordered (dateRange f)"
  shows "dates_ordered (dateRange (apply_event z f ev))"
proof (cases ev)
  case (StartDatePicked day)
  then show ?thesis
    using handleDateChange_dates_ordered [OF assms(1)] by simp
next
  case (EndDatePicked day)
  then show ?thesis
    using handleDateChange_dates_ordered [OF assms(1)] by simp
qed (use f in \<open>simp_all add: handleFileTypeToggle_def Let_def clearFilters_def
       handleSizeChange_dateRange dates_ordered_def\<close>)

lemma foldl_apply_event_size_ordered:
  "less_eq_js (fst (sizeRange f)) (snd (sizeRange f)) \<Longrightarrow>
   less_eq_js (fst (sizeRange (foldl (apply_event z) f evs)))
              (snd (sizeRange (foldl (apply_event z) f evs)))"
  by (induction evs arbitrary: f) (simp_all add: apply_event_size_ordered)

lemma foldl_apply_event_dates_ordered:
  "day_bounds_enclose z \<Longrightarrow> dates_ordered (dateRange f) \<Longrightarrow>
   dates_ordered (dateRange (foldl (apply_event z) f evs))"
  by (induction evs arbitrary: f) (simp_all add: apply_event_dates_ordered)

lemma filters_after_size_ordered:
  "less_eq_js (fst (sizeRange (filters_after z evs))) (snd (sizeRange (filters_after z evs)))"
  unfolding filters_after_def
  by (rule foldl_apply_event_size_ordered) (simp add: initialFilters_def less_eq_js_def)

lemma filters_after_ranges_ordered:
  "day_bounds_enclose z \<Longrightarrow> ranges_ordered (filters_after z evs)"
  unfolding ranges_ordered_def
proof
  show "less_eq_js (fst (sizeRange (filters_after z evs))) (snd (sizeRange (filters_after z evs)))"
    by (rule filters_after_size_ordered)
  assume "day_bounds_enclose z"
  then show "dates_ordered (dateRange (filters_after z evs))"
    unfolding filters_after_def
    by (rule foldl_apply_event_dates_ordered) (simp add: initialFilters_def dates_ordered_def)
qed


section \<open>The space-saved identity of the storage core\<close>

lemma find_Some_mem: "find P xs = Some x \<Longrightarrow> x \<in> set xs \<and> P x"
  by (induction xs) (auto split: if_splits)

lemma find_None_all: "find P xs = None \<Longrightarrow> \<forall>x \<in> set xs. \<not> P x"
  by (induction xs) (auto split: if_splits)

lemma distinct_key_unique:
  "distinct (map k xs) \<Longrightarrow> x \<in> set xs \<Longrightarrow> y \<in> set xs \<Longrightarrow> k x = k y \<Longrightarrow> x = y"
  by (induction xs) (auto simp: image_iff)

lemma sum_map_update:
  fixes g :: "'a \<Rightarrow> int"
  shows "distinct (map k xs) \<Longrightarrow> b \<in> set xs \<Longrightarrow>
    (\<Sum>x\<leftarrow>map (\<lambda>x. if k x = k b then u x else x) xs. g x) =
    (\<Sum>x\<leftarrow>xs. g x) - g b + g (u b)"
proof (induction xs)
  case Nil
  then show ?case by simp
next
  case (Cons a xs)
  show ?case
  proof (cases "a = b")
    case True
    then have "\<forall>x \<in> set xs. k x \<noteq> k b"
      using Cons.prems(1) by (auto simp: image_iff)
    then have "map (\<lambda>x. if k x = k b then u x else x) xs = xs"
      by (induction xs) auto
    with True show ?thesis by simp
  next
    case False
    then have "b \<in> set xs" using Cons.prems(2) by simp
    moreover have "k a \<noteq> k b"
      using Cons.prems(1) \<open>b \<in> set xs\<close> by (auto simp: image_iff)
    ultimately show ?thesis
      using Cons by simp
  qed
qed

lemma sum_filter_remove:
  fixes g :: "'a \<Rightarrow> int"
  shows "distinct (map k xs) \<Longrightarrow> b \<in> set xs \<Longrightarrow>
    (\<Sum>x\<leftarrow>filter (\<lambda>x. k x \<noteq> k b) xs. g x) = (\<Sum>x\<leftarrow>xs. g x) - g b"
proof (induction xs)
  case Nil
  then show ?case by simp
next
  case (Cons a xs)
  show ?case
  proof (cases "a = b")
    case True
    then have "\<forall>x \<in> set xs. k x \<noteq> k b"
      using Cons.prems(1) by (auto simp: image_iff)
    then have "filter (\<lambda>x. k x \<noteq> k b) xs = xs"
      by (induction xs) auto
    with True show ?thesis by simp
  next
    case False
    then have "b \<in> set xs" using Cons.prems(2) by simp
    moreover have "k a \<noteq> k b"
      using Cons.prems(1) \<open>b \<in> set xs\<close> by (auto simp: image_iff)
    ultimately show ?thesis
      using Cons by simp
  qed
qed

lemma count_filter_remove:
  "distinct (map k xs) \<Longrightarrow> r \<in> set xs \<Longrightarrow>
    int (length (filter P (filter (\<lambda>x. k x \<noteq> k r) xs))) =
    int (length (filter P xs)) - (if P r then 1 else 0)"
proof (induction xs)
  case Nil
  then show ?case by simp
next
  case (Cons a xs)
  show ?case
  proof (cases "a = r")
    case True
    then have "\<forall>x \<in> set xs. k x \<noteq> k r"
      using Cons.prems(1) by (auto simp: image_iff)
    then have "filter (\<lambda>x. k x \<noteq> k r) xs = xs"
      by (induction xs) auto
    with True show ?thesis by simp
  next
    case False
    then have "r \<in> set xs" using Cons.prems(2) by simp
    moreover have "k a \<noteq> k r"
      using Cons.prems(1) \<open>r \<in> set xs\<close> by (auto simp: image_iff)
    ultimately show ?thesis
      using Cons by (auto split: if_splits)
  qed
qed

lemma empty_inv: "ledger_inv empty_ledger"
  by (simp add: ledger_inv_def empty_ledger_def)


lemma inv_sizes:
  assumes "ledger_inv s"
  shows "(\<Sum>b\<leftarrow>blobs s. int (size_bytes b)) \<le> (\<Sum>r\<leftarrow>records s. int (fr_size_bytes r))"
proof -
  have "\<forall>b \<in> set (blobs s). int (size_bytes b) \<le> reference_count b * int (size_bytes b)"
  proof
    fix b assume "b \<in> set (blobs s)"
    then have "1 \<le> reference_count b"
      using assms unfolding ledger_inv_def by blast
    then have "1 * int (size_bytes b) \<le> reference_count b * int (size_bytes b)"
      by (intro mult_right_mono) simp_all
    then show "int (size_bytes b) \<le> reference_count b * int (size_bytes b)" by simp
  qed
  then have "(\<Sum>b\<leftarrow>blobs s. int (size_bytes b)) \<le>
             (\<Sum>b\<leftarrow>blobs s. reference_count b * int (size_bytes b))"
    by (intro sum_list_mono) simp
  then show ?thesis
    using assms by (simp add: ledger_inv_def)
qed

lemma resolve_or_create_inv:
  assumes inv: "ledger_inv s" and ok: "resolve_or_create s d n fname ftype now = Inr (r, s')"
  shows "ledger_inv s'"
proof (cases "find (\<lambda>b. content_hash b = d) (blobs s)")
  case None
  then have nb: "\<forall>b \<in> set (blobs s). content_hash b \<noteq> d"
    by (auto dest: find_None_all)
  have nr: "\<forall>x \<in> set (records s). fr_content_hash x \<noteq> d"
    using inv nb unfolding ledger_inv_def by metis
  then have f0: "filter (\<lambda>x. fr_content_hash x = d) (records s) = []"
    by (induction "records s") (auto simp: filter_empty_conv)
  have s': "s' = s\<lparr>blobs := blobs s @ [\<lparr>content_hash = d, size_bytes = n, storage_key = d,
                                          reference_count = 1, created_at = now\<rparr>],
                    records := records s @ [\<lparr>fr_id = next_id s, fr_original_filename = fname,
                        fr_content_hash = d, fr_file_type = ftype, fr_size_bytes = n,
                        fr_uploaded_at = now\<rparr>],
                    next_id := next_id s + 1\<rparr>"
    using ok None by (auto simp: resolve_or_create_def Let_def)
  have ids: "\<forall>x \<in> set (records s). fr_id x < next_id s"
    using inv by (simp add: ledger_inv_def)
  let ?b = "\<lparr>content_hash = d, size_bytes = n, storage_key = d,
              reference_count = 1, created_at = now\<rparr>"
  let ?r = "\<lparr>fr_id = next_id s, fr_original_filename = fname,
                        fr_content_hash = d, fr_file_type = ftype, fr_size_bytes = n,
                        fr_uploaded_at = now\<rparr>"
  have i1: "distinct (map content_hash (blobs s @ [?b]))"
    using inv nb by (auto simp: ledger_inv_def)
  have i2: "distinct (map fr_id (records s @ [?r]))"
    using inv ids by (auto simp: ledger_inv_def)
  have i3: "\<forall>x \<in> set (blobs s @ [?b]). 1 \<le> reference_count x \<and>
        reference_count x =
          int (length (filter (\<lambda>r. fr_content_hash r = content_hash x) (records s @ [?r])))"
  proof
    fix x assume x: "x \<in> set (blobs s @ [?b])"
    show "1 \<le> reference_count x \<and>
        reference_count x =
          int (length (filter (\<lambda>r. fr_content_hash r = content_hash x) (records s @ [?r])))"
    proof (cases "x \<in> set (blobs s)")
      case True
      then have "content_hash x \<noteq> d" using nb by blast
      moreover have "1 \<le> reference_count x \<and> reference_count x =
          int (length (filter (\<lambda>r. fr_content_hash r = content_hash x) (records s)))"
        using inv True unfolding ledger_inv_def by blast
      ultimately show ?thesis by simp
    next
      case False
      then have "x = ?b" using x by simp
      then show ?thesis using f0 by simp
    qed
  qed
  have i4: "\<forall>x \<in> set (records s @ [?r]). fr_id x < next_id s + 1 \<and>
        (\<exists>y \<in> set (blobs s @ [?b]). content_hash y = fr_content_hash x \<and>
            size_bytes y = fr_size_bytes x)"
  proof
    fix x assume x: "x \<in> set (records s @ [?r])"
    show "fr_id x < next_id s + 1 \<and>
        (\<exists>y \<in> set (blobs s @ [?b]). content_hash y = fr_content_hash x \<and>
            size_bytes y = fr_size_bytes x)"
    proof (cases "x \<in> set (records s)")
      case True
      then obtain y where "y \<in> set (blobs s)" "content_hash y = fr_content_hash x"
          "size_bytes y = fr_size_bytes x"
        using inv unfolding ledger_inv_def by blast
      then have "\<exists>y \<in> set (blobs s @ [?b]). content_hash y = fr_content_hash x \<and>
            size_bytes y = fr_size_bytes x"
        by auto
      moreover have "fr_id x < next_id s + 1" using ids True by auto
      ultimately show ?thesis by blast
    next
      case False
      then have "x = ?r" using x by simp
      then show ?thesis by simp
    qed
  qed
  have i5: "(\<Sum>x\<leftarrow>records s @ [?r]. int (fr_size_bytes x)) =
       (\<Sum>x\<leftarrow>blobs s @ [?b]. reference_count x * int (size_bytes x))"
    using inv by (simp add: ledger_inv_def)
  have st: "blobs s' = blobs s @ [?b]" "records s' = records s @ [?r]"
      "next_id s' = next_id s + 1"
    by (simp_all add: s')
  show ?thesis
    unfolding ledger_inv_def st by (intro conjI i1 i2 i3 i4 i5)
next
  case (Some b)
  then have b: "b \<in> set (blobs s)" "content_hash b = d"
    by (auto dest: find_Some_mem)
  have sz: "size_bytes b = n"
    using ok Some by (simp add: resolve_or_create_def Let_def split: if_splits)
  let ?u = "\<lambda>x. x\<lparr>reference_count := reference_count x + 1\<rparr>"
  let ?bs = "map (\<lambda>x. if content_hash x = content_hash b then ?u x else x) (blobs s)"
  let ?r = "\<lparr>fr_id = next_id s, fr_original_filename = fname,
                        fr_content_hash = d, fr_file_type = ftype, fr_size_bytes = n,
                        fr_uploaded_at = now\<rparr>"
  have s': "s' = s\<lparr>blobs := ?bs, records := records s @ [?r], next_id := next_id s + 1\<rparr>"
    using ok Some sz b by (auto simp: resolve_or_create_def Let_def)
  have dist: "distinct (map content_hash (blobs s))"
    using inv by (simp add: ledger_inv_def)
  have hashes: "map content_hash ?bs = map content_hash (blobs s)"
    by (simp add: comp_def if_distrib cong: if_cong)
  have sum: "(\<Sum>x\<leftarrow>?bs. reference_count x * int (size_bytes x)) =
             (\<Sum>x\<leftarrow>blobs s. reference_count x * int (size_bytes x)) + int n"
    using sum_map_update [OF dist b(1), where u = ?u and g = "\<lambda>x. reference_count x * int (size_bytes x)"] sz
    by (simp add: algebra_simps)
  have ids: "\<forall>x \<in> set (records s). fr_id x < next_id s"
    using inv by (simp add: ledger_inv_def)
  have i1: "distinct (map content_hash ?bs)"
    using dist by (simp only: hashes)
  have i2: "distinct (map fr_id (records s @ [?r]))"
    using inv ids by (auto simp: ledger_inv_def)
  have i3: "\<forall>x \<in> set ?bs. 1 \<le> reference_count x \<and>
        reference_count x =
          int (length (filter (\<lambda>r. fr_content_hash r = content_hash x) (records s @ [?r])))"
  proof
    fix x assume "x \<in> set ?bs"
    then obtain y where y: "y \<in> set (blobs s)"
        "x = (if content_hash y = content_hash b then ?u y else y)"
      by auto
    have old: "1 \<le> reference_count y \<and> reference_count y =
          int (length (filter (\<lambda>r. fr_content_hash r = content_hash y) (records s)))"
      using inv y(1) unfolding ledger_inv_def by blast
    show "1 \<le> reference_count x \<and>
        reference_count x =
          int (length (filter (\<lambda>r. fr_content_hash r = content_hash x) (records s @ [?r])))"
    proof (cases "content_hash y = content_hash b")
      case True
      then show ?thesis using y(2) old b(2) by simp
    next
      case False
      then show ?thesis using y(2) old b(2) by simp
    qed
  qed
  have i4: "\<forall>x \<in> set (records s @ [?r]). fr_id x < next_id s + 1 \<and>
        (\<exists>y \<in> set ?bs. content_hash y = fr_content_hash x \<and> size_bytes y = fr_size_bytes x)"
  proof
    fix x assume x: "x \<in> set (records s @ [?r])"
    show "fr_id x < next_id s + 1 \<and>
        (\<exists>y \<in> set ?bs. content_hash y = fr_content_hash x \<and> size_bytes y = fr_size_bytes x)"
    proof (cases "x = ?r")
      case True
      have "?u b \<in> set ?bs" using b by (auto simp: image_iff)
      moreover have "content_hash (?u b) = fr_content_hash x \<and>
          size_bytes (?u b) = fr_size_bytes x"
        using True b sz by simp
      ultimately have "\<exists>y \<in> set ?bs. content_hash y = fr_content_hash x \<and>
          size_bytes y = fr_size_bytes x"
        by blast
      moreover have "fr_id x < next_id s + 1"
        using True by simp
      ultimately show ?thesis by blast
    next
      case False
      then have xm: "x \<in> set (records s)" using x by simp
      then obtain y where y: "y \<in> set (blobs s)" "content_hash y = fr_content_hash x"
          "size_bytes y = fr_size_bytes x"
        using inv unfolding ledger_inv_def by blast
      let ?y = "if content_hash y = content_hash b then ?u y else y"
      have "?y \<in> set ?bs" using y(1) by (auto simp: image_iff)
      moreover have "content_hash ?y = fr_content_hash x \<and> size_bytes ?y = fr_size_bytes x"
        using y by simp
      ultimately have "\<exists>y \<in> set ?bs. content_hash y = fr_content_hash x \<and>
          size_bytes y = fr_size_bytes x"
        by blast
      moreover have "fr_id x < next_id s + 1"
        using ids xm by auto
      ultimately show ?thesis by blast
    qed
  qed
  have i5: "(\<Sum>x\<leftarrow>records s @ [?r]. int (fr_size_bytes x)) =
       (\<Sum>x\<leftarrow>?bs. reference_count x * int (size_bytes x))"
    using inv sum by (simp add: ledger_inv_def)
  have st: "blobs s' = ?bs" "records s' = records s @ [?r]" "next_id s' = next_id s + 1"
    by (simp_all add: s')
  show ?thesis
    unfolding ledger_inv_def st by (intro conjI i1 i2 i3 i4 i5)
qed


lemma filter_map_update:
  "(\<And>x. k (u x) = k x) \<Longrightarrow>
   filter (\<lambda>x. k x \<noteq> d) (map (\<lambda>x. if k x = d then u x else x) xs) =
   filter (\<lambda>x. k x \<noteq> d) xs"
  by (induction xs) auto

lemma release_inv:
  assumes inv: "ledger_inv s" and ok: "release s i = Inr s'"
  shows "ledger_inv s'"
proof -
  obtain r where fr: "find (\<lambda>r. fr_id r = i) (records s) = Some r"
    using ok by (cases "find (\<lambda>r. fr_id r = i) (records s)") (auto simp: release_def)
  then have r: "r \<in> set (records s)" "fr_id r = i"
    by (auto dest: find_Some_mem)
  obtain b where fb: "find (\<lambda>b. content_hash b = fr_content_hash r) (blobs s) = Some b"
    using ok fr
    by (cases "find (\<lambda>b. content_hash b = fr_content_hash r) (blobs s)")
       (auto simp: release_def)
  then have b: "b \<in> set (blobs s)" "content_hash b = fr_content_hash r"
    by (auto dest: find_Some_mem)
  have dist: "distinct (map content_hash (blobs s))"
    and dist_id: "distinct (map fr_id (records s))"
    and sums: "(\<Sum>r\<leftarrow>records s. int (fr_size_bytes r)) =
       (\<Sum>b\<leftarrow>blobs s. reference_count b * int (size_bytes b))"
    using inv by (simp_all add: ledger_inv_def)
  have counts: "\<And>y. y \<in> set (blobs s) \<Longrightarrow> 1 \<le> reference_count y \<and> reference_count y =
          int (length (filter (\<lambda>r. fr_content_hash r = content_hash y) (records s)))"
    using inv unfolding ledger_inv_def by blast
  have owners: "\<And>x. x \<in> set (records s) \<Longrightarrow> fr_id x < next_id s \<and>
        (\<exists>y \<in> set (blobs s). content_hash y = fr_content_hash x \<and>
                                size_bytes y = fr_size_bytes x)"
    using inv unfolding ledger_inv_def by blast
  have sz: "size_bytes b = fr_size_bytes r"
  proof -
    obtain y where "y \<in> set (blobs s)" "content_hash y = fr_content_hash r"
        "size_bytes y = fr_size_bytes r"
      using owners [OF r(1)] by blast
    moreover from this b have "y = b"
      using distinct_key_unique [OF dist] by metis
    ultimately show ?thesis by simp
  qed
  let ?u = "\<lambda>x. x\<lparr>reference_count := reference_count x - 1\<rparr>"
  let ?rs = "filter (\<lambda>x. fr_id x \<noteq> fr_id r) (records s)"
  let ?bs = "map (\<lambda>x. if content_hash x = content_hash b then ?u x else x) (blobs s)"
  let ?P = "\<lambda>h x. fr_content_hash x = h"
  have rs_sum: "(\<Sum>x\<leftarrow>?rs. int (fr_size_bytes x)) =
                (\<Sum>x\<leftarrow>records s. int (fr_size_bytes x)) - int (fr_size_bytes r)"
    using sum_filter_remove [OF dist_id r(1)] by simp
  have rs_count: "\<And>h. int (length (filter (?P h) ?rs)) =
       int (length (filter (?P h) (records s))) - (if fr_content_hash r = h then 1 else 0)"
    using count_filter_remove [OF dist_id r(1), where P = "?P h" for h] by simp
  have i2: "distinct (map fr_id ?rs)"
    using dist_id by (simp add: distinct_map_filter)
  have nonneg: "\<not> reference_count b - 1 < 0"
    using ok fr fb by (auto simp: release_def split: if_splits)
  show ?thesis
  proof (cases "reference_count b - 1 = 0")
    case True
    let ?bs' = "filter (\<lambda>x. content_hash x \<noteq> content_hash b) (blobs s)"
    have "s' = reap (s\<lparr>records := ?rs, blobs := ?bs\<rparr>) (fr_content_hash r)"
      using ok fr fb True r b by (auto simp: release_def Let_def)
    moreover have "filter (\<lambda>x. content_hash x \<noteq> content_hash b) ?bs = ?bs'"
      by (rule filter_map_update) simp
    ultimately have st: "blobs s' = ?bs'" "records s' = ?rs" "next_id s' = next_id s"
      using b by (simp_all add: reap_def)
    have gone: "filter (?P (content_hash b)) ?rs = []"
    proof -
      have "int (length (filter (?P (content_hash b)) ?rs)) = reference_count b - 1"
        using rs_count [of "content_hash b"] counts [OF b(1)] b(2) by simp
      then show ?thesis using True by simp
    qed
    have i1: "distinct (map content_hash ?bs')"
      using dist by (simp add: distinct_map_filter)
    have i3: "\<forall>x \<in> set ?bs'. 1 \<le> reference_count x \<and>
        reference_count x =
          int (length (filter (\<lambda>r. fr_content_hash r = content_hash x) ?rs))"
    proof
      fix x assume "x \<in> set ?bs'"
      then have x: "x \<in> set (blobs s)" "content_hash x \<noteq> fr_content_hash r"
        using b by auto
      show "1 \<le> reference_count x \<and>
        reference_count x =
          int (length (filter (\<lambda>r. fr_content_hash r = content_hash x) ?rs))"
        using counts [OF x(1)] rs_count [of "content_hash x"] x(2) by simp
    qed
    have i4: "\<forall>x \<in> set ?rs. fr_id x < next_id s \<and>
        (\<exists>y \<in> set ?bs'. content_hash y = fr_content_hash x \<and>
                           size_bytes y = fr_size_bytes x)"
    proof
      fix x assume xr: "x \<in> set ?rs"
      then have x: "x \<in> set (records s)" by simp
      have "x \<notin> set (filter (?P (content_hash b)) ?rs)"
        using gone by simp
      then have ne: "fr_content_hash x \<noteq> content_hash b"
        using xr by simp
      obtain y where y: "y \<in> set (blobs s)" "content_hash y = fr_content_hash x"
          "size_bytes y = fr_size_bytes x"
        using owners [OF x] by blast
      then have "y \<in> set ?bs'" using ne by simp
      then have "\<exists>y \<in> set ?bs'. content_hash y = fr_content_hash x \<and>
                           size_bytes y = fr_size_bytes x"
        using y by blast
      then show "fr_id x < next_id s \<and>
        (\<exists>y \<in> set ?bs'. content_hash y = fr_content_hash x \<and>
                           size_bytes y = fr_size_bytes x)"
        using owners [OF x] by blast
    qed
    have i5: "(\<Sum>x\<leftarrow>?rs. int (fr_size_bytes x)) =
       (\<Sum>x\<leftarrow>?bs'. reference_count x * int (size_bytes x))"
      using sum_filter_remove [OF dist b(1), where g = "\<lambda>x. reference_count x * int (size_bytes x)"]
        rs_sum sums sz True
      by simp
    show ?thesis
      unfolding ledger_inv_def st by (intro conjI i1 i2 i3 i4 i5)
  next
    case False
    have st: "blobs s' = ?bs" "records s' = ?rs" "next_id s' = next_id s"
      using ok fr fb False nonneg r b by (auto simp: release_def Let_def)
    have hashes: "map content_hash ?bs = map content_hash (blobs s)"
      by (simp add: comp_def if_distrib cong: if_cong)
    have i1: "distinct (map content_hash ?bs)"
      using dist by (simp only: hashes)
    have i3: "\<forall>x \<in> set ?bs. 1 \<le> reference_count x \<and>
        reference_count x =
          int (length (filter (\<lambda>r. fr_content_hash r = content_hash x) ?rs))"
    proof
      fix x assume "x \<in> set ?bs"
      then obtain y where y: "y \<in> set (blobs s)"
          "x = (if content_hash y = content_hash b then ?u y else y)"
        by auto
      show "1 \<le> reference_count x \<and>
        reference_count x =
          int (length (filter (\<lambda>r. fr_content_hash r = content_hash x) ?rs))"
      proof (cases "content_hash y = content_hash b")
        case True
        then have "y = b"
          using distinct_key_unique [OF dist y(1) b(1)] by simp
        then show ?thesis
          using y(2) counts [OF b(1)] rs_count [of "content_hash b"] b(2) False nonneg
          by simp
      next
        case False
        then show ?thesis
          using y counts [OF y(1)] rs_count [of "content_hash y"] b(2) by simp
      qed
    qed
    have i4: "\<forall>x \<in> set ?rs. fr_id x < next_id s \<and>
        (\<exists>y \<in> set ?bs. content_hash y = fr_content_hash x \<and>
                          size_bytes y = fr_size_bytes x)"
    proof
      fix x assume "x \<in> set ?rs"
      then have x: "x \<in> set (records s)" by simp
      obtain y where y: "y \<in> set (blobs s)" "content_hash y = fr_content_hash x"
          "size_bytes y = fr_size_bytes x"
        using owners [OF x] by blast
      let ?y = "if content_hash y = content_hash b then ?u y else y"
      have "?y \<in> set ?bs" using y(1) by (auto simp: image_iff)
      moreover have "content_hash ?y = fr_content_hash x \<and> size_bytes ?y = fr_size_bytes x"
        using y by simp
      ultimately have "\<exists>y \<in> set ?bs. content_hash y = fr_content_hash x \<and>
                          size_bytes y = fr_size_bytes x"
        by blast
      then show "fr_id x < next_id s \<and>
        (\<exists>y \<in> set ?bs. content_hash y = fr_content_hash x \<and>
                          size_bytes y = fr_size_bytes x)"
        using owners [OF x] by blast
    qed
    have i5: "(\<Sum>x\<leftarrow>?rs. int (fr_size_bytes x)) =
       (\<Sum>x\<leftarrow>?bs. reference_count x * int (size_bytes x))"
      using sum_map_update [OF dist b(1), where u = ?u
          and g = "\<lambda>x. reference_count x * int (size_bytes x)"]
        rs_sum sums sz
      by (simp add: algebra_simps)
    show ?thesis
      unfolding ledger_inv_def st by (intro conjI i1 i2 i3 i4 i5)
  qed
qed

lemma step_inv: "ledger_inv s \<Longrightarrow> ledger_inv (step H s op)"
  by (cases op)
     (auto simp: step_def split: sum.splits prod.splits
           intro: resolve_or_create_inv release_inv)

lemma foldl_step_inv: "ledger_inv s \<Longrightarrow> ledger_inv (foldl (step H) s ops)"
  by (induction ops arbitrary: s) (simp_all add: step_inv)

lemma run_inv: "ledger_inv (run H ops)"
  unfolding run_def by (rule foldl_step_inv [OF empty_inv])

text \<open>
  C3. In every state reached from the empty store by uploads and deletions, the blobs have
  distinct digests, \<^verbatim>\<open>total_space_saved\<close> of the snapshot is the sum of the sizes of the
  file records minus the sum of the sizes of the blobs, and it is not negative.
\<close>

theorem space_saved_identity:
  "snap_total_space_saved (snapshot (run H ops)) =
     (\<Sum>r\<leftarrow>records (run H ops). int (fr_size_bytes r))
       - (\<Sum>b\<leftarrow>blobs (run H ops). int (size_bytes b)) \<and>
   distinct (map content_hash (blobs (run H ops))) \<and>
   0 \<le> snap_total_space_saved (snapshot (run H ops))"
  using inv_sizes [OF run_inv [of H ops]] run_inv [of H ops]
  by (simp add: snapshot_def Let_def ledger_inv_def)

text \<open>The end-to-end scenario of the specification, with a content of five bytes.\<close>

lemma end_to_end_scenario:

  "snapshot (run (\<lambda>x. x) [Upload ''XXXXX'' ''a.txt'' ''text/plain'' 1]) =
     \<lparr>snap_total_files = 1, snap_total_references = 1, snap_total_size = 5, snap_total_space_saved = 0\<rparr> \<and>
   snapshot (run (\<lambda>x. x) [Upload ''XXXXX'' ''a.txt'' ''text/plain'' 1, Upload ''XXXXX'' ''b.txt'' ''text/plain'' 2]) =
     \<lparr>snap_total_files = 1, snap_total_references = 2, snap_total_size = 5, snap_total_space_saved = 5\<rparr> \<and>
   snapshot (run (\<lambda>x. x) [Upload ''XXXXX'' ''a.txt'' ''text/plain'' 1, Upload ''XXXXX'' ''b.txt'' ''text/plain'' 2, Delete 0]) =
     \<lparr>snap_total_files = 1, snap_total_references = 1, snap_total_size = 5, snap_total_space_saved = 0\<rparr> \<and>
   snapshot (run (\<lambda>x. x) [Upload ''XXXXX'' ''a.txt'' ''text/plain'' 1, Upload ''XXXXX'' ''b.txt'' ''text/plain'' 2, Delete 0, Delete 1]) =
     \<lparr>snap_total_files = 0, snap_total_references = 0, snap_total_size = 0, snap_total_space_saved = 0\<rparr>"
  by (simp add: run_def step_def ingest_def size_ceiling_def resolve_or_create_def release_def
      reap_def snapshot_def empty_ledger_def Let_def)

end
